theory Spec2Isabelle
  imports Main "HOL-Library.Word"
begin

unbundle bit_operations_syntax

section \<open>Common data types\<close>

type_synonym byte = "8 word"
type_synonym data_chunk = "byte list"

text \<open>\<^verbatim>\<open>hash_digest\<close> and \<^verbatim>\<open>ec_secret\<close> are \<^verbatim>\<open>std::array<uint8_t, 32>\<close>; they are
  modelled as byte lists, and the fixed length is the well-formedness condition
  \<open>length d = hash_size\<close>.\<close>

type_synonym hash_digest = "byte list"
type_synonym uint256_t = "256 word"

definition hash_size :: nat where
  "hash_size = 32"

definition null_hash :: hash_digest where
  "null_hash = replicate hash_size 0"

section \<open>chain::header (src/chain/header.cpp)\<close>

record header =
  version :: "32 word"
  previous_block_hash :: hash_digest
  merkle_root :: hash_digest
  timestamp :: "32 word"
  bits :: "32 word"
  nonce :: "32 word"
  valid :: bool

text \<open>The well-formedness of a header: both digests have the length of their array type.\<close>

definition wf_header :: "header \<Rightarrow> bool" where
  "wf_header h = (length (previous_block_hash h) = hash_size \<and> length (merkle_root h) = hash_size)"

subsection \<open>Constructors\<close>

text \<open>\<^verbatim>\<open>header::header()\<close> delegates to \<^verbatim>\<open>header(0, {}, {}, 0, 0, 0, false)\<close>; a
  value-initialised digest is all zero.\<close>

definition header_default :: header where
  "header_default =
     \<lparr>version = 0, previous_block_hash = null_hash, merkle_root = null_hash,
      timestamp = 0, bits = 0, nonce = 0, valid = False\<rparr>"

text \<open>The public six-field constructors pass \<^verbatim>\<open>true\<close> for the valid flag.\<close>

definition header_fields ::
  "32 word \<Rightarrow> hash_digest \<Rightarrow> hash_digest \<Rightarrow> 32 word \<Rightarrow> 32 word \<Rightarrow> 32 word \<Rightarrow> header" where
  "header_fields v p m t b n =
     \<lparr>version = v, previous_block_hash = p, merkle_root = m,
      timestamp = t, bits = b, nonce = n, valid = True\<rparr>"

subsection \<open>Operators\<close>

definition header_eq :: "header \<Rightarrow> header \<Rightarrow> bool" where
  "header_eq h other =
     ((version h = version other)
      \<and> (previous_block_hash h = previous_block_hash other)
      \<and> (merkle_root h = merkle_root other)
      \<and> (timestamp h = timestamp other)
      \<and> (bits h = bits other)
      \<and> (nonce h = nonce other))"

definition header_neq :: "header \<Rightarrow> header \<Rightarrow> bool" where
  "header_neq h other = (\<not> header_eq h other)"

definition is_valid :: "header \<Rightarrow> bool" where
  "is_valid h = valid h"

subsection \<open>Byte reader and writer\<close>

text \<open>The stream reader and writer (\<^verbatim>\<open>bitcoin/system/stream\<close>) are not among the
  sources verified here; the definitions of this subsection stand for them.\<close>

text \<open>Modelled from the spec: the reader of \<^verbatim>\<open>stream\<close>, which is missing. It holds the bytes
  not yet read, and \<open>source_ok\<close> is its conversion to \<^verbatim>\<open>bool\<close>, which \<^verbatim>\<open>from_data\<close> passes
  as the header's valid flag.\<close>

record reader =
  source_bytes :: "byte list"
  source_ok :: bool

text \<open>Modelled from the spec: a fresh reader over a byte sequence (\<^verbatim>\<open>stream::in::copy\<close> and
  \<^verbatim>\<open>read::bytes::istream\<close>, which are missing).\<close>

definition reader_of :: "byte list \<Rightarrow> reader" where
  "reader_of data = \<lparr>source_bytes = data, source_ok = True\<rparr>"

text \<open>Modelled from the spec: the reader's read of \<open>n\<close> bytes, which is missing. A read never
  raises, and the bytes that the source no longer holds read as zero ("missing bytes leave
  default/zero values"). A short read gives no signal of invalidity ("silently yields default
  field values with no additional invalidity signal"; "the valid flag is set true whenever
  this path is used"): no read changes what the reader converts to.\<close>

definition read_bytes :: "nat \<Rightarrow> reader \<Rightarrow> byte list \<times> reader" where
  "read_bytes n r =
     (take n (source_bytes r) @ replicate (n - length (source_bytes r)) 0,
      \<lparr>source_bytes = drop n (source_bytes r), source_ok = source_ok r\<rparr>)"

text \<open>Modelled from the spec: the value of bytes in little-endian order (the decoding inside
  the missing \<^verbatim>\<open>read_4_bytes_little_endian\<close>).\<close>

definition from_little_endian :: "byte list \<Rightarrow> 32 word" where
  "from_little_endian bs = foldr (\<lambda>b acc. ucast b OR push_bit 8 acc) bs 0"

text \<open>Modelled from the spec: the reader's \<^verbatim>\<open>read_4_bytes_little_endian\<close>, which is
  missing.\<close>

definition read_4_bytes_little_endian :: "reader \<Rightarrow> 32 word \<times> reader" where
  "read_4_bytes_little_endian r =
     (let (bs, r') = read_bytes 4 r in (from_little_endian bs, r'))"

text \<open>Modelled from the spec: the reader's \<^verbatim>\<open>read_hash\<close>, which is missing: 32 raw bytes,
  not swapped.\<close>

definition read_hash :: "reader \<Rightarrow> hash_digest \<times> reader" where
  "read_hash r = read_bytes hash_size r"

text \<open>A writer is what has been written to it so far.\<close>

type_synonym writer = "byte list"

text \<open>Modelled from the spec: the writer's \<^verbatim>\<open>write_bytes\<close>, which is missing: the bytes as
  they are.\<close>

definition write_bytes :: "byte list \<Rightarrow> writer \<Rightarrow> writer" where
  "write_bytes bs sink = sink @ bs"

text \<open>Modelled from the spec: the writer's \<^verbatim>\<open>write_4_bytes_little_endian\<close>, which is
  missing: least significant byte first.\<close>

definition write_4_bytes_little_endian :: "32 word \<Rightarrow> writer \<Rightarrow> writer" where
  "write_4_bytes_little_endian v sink =
     sink @ [ucast v, ucast (drop_bit 8 v), ucast (drop_bit 16 v), ucast (drop_bit 24 v)]"

text \<open>Modelled from the spec: the copy sink of \<^verbatim>\<open>stream\<close> over a fixed buffer, which is
  missing: what was written replaces the buffer from its start, and nothing is written past
  its end.\<close>

definition copy_sink :: "byte list \<Rightarrow> writer \<Rightarrow> byte list" where
  "copy_sink buffer written = take (length buffer) written @ drop (length written) buffer"

subsection \<open>Deserialization\<close>

text \<open>\<^verbatim>\<open>header::from_data(reader& source)\<close>: a braced initialiser list evaluates left to right,
  so the six reads happen in order and the reader is converted to \<^verbatim>\<open>bool\<close> after them.\<close>

definition from_data :: "reader \<Rightarrow> header \<times> reader" where
  "from_data source =
     (let (v, s1) = read_4_bytes_little_endian source;
          (p, s2) = read_hash s1;
          (m, s3) = read_hash s2;
          (t, s4) = read_4_bytes_little_endian s3;
          (b, s5) = read_4_bytes_little_endian s4;
          (n, s6) = read_4_bytes_little_endian s5
      in (\<lparr>version = v, previous_block_hash = p, merkle_root = m,
           timestamp = t, bits = b, nonce = n, valid = source_ok s6\<rparr>, s6))"

text \<open>\<^verbatim>\<open>header::header(const data_slice& data)\<close>: through the stream constructors to
  \<^verbatim>\<open>from_data\<close> on a fresh reader over the bytes.\<close>

definition header_of_data :: "byte list \<Rightarrow> header" where
  "header_of_data data = fst (from_data (reader_of data))"

subsection \<open>Serialization\<close>

definition serialized_size :: nat where
  "serialized_size = 4 + hash_size + hash_size + 4 + 4 + 4"

text \<open>\<^verbatim>\<open>header::to_data(writer& sink)\<close>.\<close>

definition to_data_sink :: "header \<Rightarrow> writer \<Rightarrow> writer" where
  "to_data_sink h sink =
     (let s1 = write_4_bytes_little_endian (version h) sink;
          s2 = write_bytes (previous_block_hash h) s1;
          s3 = write_bytes (merkle_root h) s2;
          s4 = write_4_bytes_little_endian (timestamp h) s3;
          s5 = write_4_bytes_little_endian (bits h) s4
      in write_4_bytes_little_endian (nonce h) s5)"

text \<open>\<^verbatim>\<open>header::to_data()\<close>: the chunk is resized to \<^verbatim>\<open>serialized_size()\<close> without filling
  (its bytes are indeterminate until written; \<open>fill\<close> stands for them) and written through a
  copy stream.\<close>

definition to_data_filled :: "byte \<Rightarrow> header \<Rightarrow> data_chunk" where
  "to_data_filled fill h =
     (let data = replicate serialized_size fill
      in copy_sink data (to_data_sink h []))"

definition to_data :: "header \<Rightarrow> data_chunk" where
  "to_data h = to_data_filled 0 h"

subsection \<open>External collaborators\<close>

text \<open>The compact-target class (\<^verbatim>\<open>chain/compact.hpp\<close>) is not among the sources verified here.
  The header code uses a decoded value through \<^verbatim>\<open>is_overflowed()\<close> and through its conversion to
  \<^verbatim>\<open>uint256_t\<close>; the record holds these two observations.\<close>

record compact =
  overflowed :: bool
  big :: uint256_t

text \<open>The decoder \<^verbatim>\<open>compact(uint32_t)\<close>, the hash primitives \<^verbatim>\<open>sha256_hash\<close> and
  \<^verbatim>\<open>scrypt_hash\<close>, and the conversion \<^verbatim>\<open>to_uint256\<close> of a digest to a number are
  collaborators declared outside the sources verified here; the header functions take them
  as parameters.\<close>

record externals =
  compact_of :: "32 word \<Rightarrow> compact"
  sha256_hash :: "data_chunk \<Rightarrow> hash_digest"
  scrypt_hash :: "data_chunk \<Rightarrow> hash_digest"
  to_uint256 :: "hash_digest \<Rightarrow> uint256_t"

text \<open>Modelled from the spec: the decoder of the compact encoding, \<^verbatim>\<open>chain/compact.hpp\<close>, which
  is missing. One exponent byte and three mantissa bytes in base 256,
  the top mantissa bit being the sign; the overflowed flag is raised when the sign bit is set
  or the value does not fit 256 bits, and no number is produced then. It serves as a concrete
  decoder where a theorem is evaluated on concrete bits.\<close>

definition from_compact :: "32 word \<Rightarrow> compact" where
  "from_compact c =
     (let exponent = unat (drop_bit 24 c);
          mantissa = unat (c AND 0x007fffff);
          negative = (c AND 0x00800000 \<noteq> 0);
          number = (if exponent \<le> 3 then mantissa div 256 ^ (3 - exponent)
                    else mantissa * 256 ^ (exponent - 3))
      in if negative \<or> 2 ^ 256 \<le> number then \<lparr>overflowed = True, big = 0\<rparr>
         else \<lparr>overflowed = False, big = of_nat number\<rparr>)"

text \<open>The chain state is consulted by \<^verbatim>\<open>accept\<close> through four \<^verbatim>\<open>const\<close> queries.\<close>

record chain_state =
  is_checkpoint_conflict :: "hash_digest \<Rightarrow> bool"
  minimum_block_version :: "32 word"
  median_time_past :: "32 word"
  work_required :: "32 word"

datatype code =
  success
  | invalid_proof_of_work
  | futuristic_timestamp
  | checkpoints_failed
  | invalid_block_version
  | timestamp_too_early
  | incorrect_proof_of_work

subsection \<open>Computed properties\<close>

text \<open>\<^verbatim>\<open>header::hash()\<close>: the header is written into a sink that hashes what it receives;
  \<^verbatim>\<open>flush\<close> stores the SHA-256 of the written bytes in \<^verbatim>\<open>sha256\<close>, which is hashed again.\<close>

definition hash :: "externals \<Rightarrow> header \<Rightarrow> hash_digest" where
  "hash E h =
     (let sink = to_data_sink h [];
          sha256 = sha256_hash E sink
      in sha256_hash E sha256)"

text \<open>\<^verbatim>\<open>uint256_t\<close> is an unchecked 256-bit unsigned integer of a library: its sum wraps,
  and its division fails on a zero divisor (the failure that the comment in
  \<^verbatim>\<open>difficulty\<close> guards against).\<close>

datatype fault = division_by_zero

definition uint256_divide :: "uint256_t \<Rightarrow> uint256_t \<Rightarrow> fault + uint256_t" where
  "uint256_divide a b = (if b = 0 then Inl division_by_zero else Inr (a div b))"

text \<open>\<^verbatim>\<open>header::difficulty(uint32_t bits)\<close>; \<^verbatim>\<open>add1\<close> is the wrapping successor on
  \<^verbatim>\<open>uint256_t\<close>.\<close>

definition difficulty :: "externals \<Rightarrow> 32 word \<Rightarrow> fault + uint256_t" where
  "difficulty E bits' =
     (let header_bits = compact_of E bits'
      in if overflowed header_bits then Inr 0
         else
           let target = big header_bits;
               divisor = target + 1
           in if divisor = 0 then Inr 0
              else (case uint256_divide (NOT target) divisor of
                      Inl e \<Rightarrow> Inl e
                    | Inr q \<Rightarrow> Inr (q + 1)))"

definition header_difficulty :: "externals \<Rightarrow> header \<Rightarrow> fault + uint256_t" where
  "header_difficulty E h = difficulty E (bits h)"

subsection \<open>Check\<close>

text \<open>Both checks keep a function-local \<^verbatim>\<open>static const\<close>: it is initialised from the
  argument of the first call that reaches its declaration and keeps that value for the rest
  of the process. \<open>None\<close> is the state before the first call.\<close>

record statics =
  pow_limit :: "uint256_t option"
  two_hours :: "64 word option"

definition fresh :: statics where
  "fresh = \<lparr>pow_limit = None, two_hours = None\<rparr>"

definition is_invalid_proof_of_work ::
  "externals \<Rightarrow> header \<Rightarrow> 32 word \<Rightarrow> bool \<Rightarrow> statics \<Rightarrow> bool \<times> statics" where
  "is_invalid_proof_of_work E h proof_of_work_limit scrypt st =
     (let bits' = compact_of E (bits h);
          limit = (case pow_limit st of
                     None \<Rightarrow> big (compact_of E proof_of_work_limit)
                   | Some l \<Rightarrow> l);
          st' = st\<lparr>pow_limit := Some limit\<rparr>
      in if overflowed bits' then (True, st')
         else
           let target = big bits'
           in if target < 1 \<or> limit < target then (True, st')
              else (target < to_uint256 E (if scrypt then scrypt_hash E (to_data h) else hash E h),
                    st'))"

text \<open>The wall clock is an input. \<^verbatim>\<open>wall_clock\<close> is \<^verbatim>\<open>std::chrono::system_clock\<close>, whose time
  points count the nanoseconds since the epoch in a signed 64-bit integer; \<open>now\<close> is the count
  that \<^verbatim>\<open>wall_clock::now()\<close> returns. \<^verbatim>\<open>std::chrono::seconds\<close> counts in a signed 64-bit
  integer too. Adding a duration to a time point converts the seconds to nanoseconds and adds
  the counts in that integer, where a sum beyond its range wraps; time points compare as
  signed counts.\<close>

record wall_clock =
  now :: "64 word"

definition nanoseconds :: "64 word \<Rightarrow> 64 word" where
  "nanoseconds s = s * 1000000000"

definition is_invalid_timestamp ::
  "wall_clock \<Rightarrow> header \<Rightarrow> 32 word \<Rightarrow> statics \<Rightarrow> bool \<times> statics" where
  "is_invalid_timestamp clock h timestamp_limit_seconds st =
     (let limit = (case two_hours st of
                     None \<Rightarrow> ucast timestamp_limit_seconds
                   | Some s \<Rightarrow> s);
          st' = st\<lparr>two_hours := Some limit\<rparr>;
          time = nanoseconds (ucast (timestamp h));
          future = now clock + nanoseconds limit
      in (future <s time, st'))"

subsection \<open>Validation\<close>

definition check ::
  "externals \<Rightarrow> wall_clock \<Rightarrow> header \<Rightarrow> 32 word \<Rightarrow> 32 word \<Rightarrow> bool \<Rightarrow> statics \<Rightarrow> code \<times> statics" where
  "check E clock h timestamp_limit_seconds proof_of_work_limit scrypt st =
     (let (bad_work, st1) = is_invalid_proof_of_work E h proof_of_work_limit scrypt st
      in if bad_work then (invalid_proof_of_work, st1)
         else
           let (bad_time, st2) = is_invalid_timestamp clock h timestamp_limit_seconds st1
           in if bad_time then (futuristic_timestamp, st2)
              else (success, st2))"

definition accept :: "externals \<Rightarrow> header \<Rightarrow> chain_state \<Rightarrow> code" where
  "accept E h state =
     (if is_checkpoint_conflict state (hash E h) then checkpoints_failed
      else if version h < minimum_block_version state then invalid_block_version
      else if timestamp h \<le> median_time_past state then timestamp_too_early
      else if bits h \<noteq> work_required state then incorrect_proof_of_work
      else success)"

section \<open>ec_scalar (src/wallet/keys/ec_scalar.cpp)\<close>

type_synonym ec_secret = "byte list"

datatype ec_scalar = ec_scalar (secret: ec_secret)

text \<open>The curve backend is an external collaborator: \<^verbatim>\<open>ec_add\<close>, \<^verbatim>\<open>ec_negate\<close> and
  \<^verbatim>\<open>ec_multiply\<close> work on their first argument in place and return a success flag. Here
  each returns the flag together with the content of the first argument after the call.\<close>

record ec_backend =
  ec_add :: "ec_secret \<Rightarrow> ec_secret \<Rightarrow> bool \<times> ec_secret"
  ec_negate :: "ec_secret \<Rightarrow> bool \<times> ec_secret"
  ec_multiply :: "ec_secret \<Rightarrow> ec_secret \<Rightarrow> bool \<times> ec_secret"

text \<open>\<^verbatim>\<open>ec_scalar::ec_scalar()\<close>.\<close>

definition ec_scalar_default :: ec_scalar where
  "ec_scalar_default = ec_scalar null_hash"

text \<open>Unary \<^verbatim>\<open>operator-\<close>.\<close>

definition scalar_negate :: "ec_backend \<Rightarrow> ec_scalar \<Rightarrow> ec_scalar" where
  "scalar_negate B s =
     (let (ok, out) = ec_negate B (secret s)
      in if \<not> ok then ec_scalar_default else ec_scalar out)"

text \<open>Binary \<^verbatim>\<open>operator+\<close>, \<^verbatim>\<open>operator-\<close> and \<^verbatim>\<open>operator*\<close>.\<close>

definition scalar_add :: "ec_backend \<Rightarrow> ec_scalar \<Rightarrow> ec_scalar \<Rightarrow> ec_scalar" where
  "scalar_add B left right =
     (let (ok, out) = ec_add B (secret left) (secret right)
      in if \<not> ok then ec_scalar_default else ec_scalar out)"

definition scalar_subtract :: "ec_backend \<Rightarrow> ec_scalar \<Rightarrow> ec_scalar \<Rightarrow> ec_scalar" where
  "scalar_subtract B left right = scalar_add B left (scalar_negate B right)"

definition scalar_multiply :: "ec_backend \<Rightarrow> ec_scalar \<Rightarrow> ec_scalar \<Rightarrow> ec_scalar" where
  "scalar_multiply B left right =
     (let (ok, out) = ec_multiply B (secret left) (secret right)
      in if \<not> ok then ec_scalar_default else ec_scalar out)"

text \<open>Comparison runs over the two arrays from their last byte to their first.\<close>

definition scalar_eq :: "ec_scalar \<Rightarrow> ec_scalar \<Rightarrow> bool" where
  "scalar_eq left right = (rev (secret left) = rev (secret right))"

text \<open>\<^verbatim>\<open>ec_scalar::operator bool()\<close>.\<close>

definition to_bool :: "ec_scalar \<Rightarrow> bool" where
  "to_bool s = (\<not> scalar_eq s (ec_scalar null_hash))"

text \<open>Modelled from the spec: \<^verbatim>\<open>absolute\<close> of \<^verbatim>\<open>math\<close>, which is missing: the absolute
  value of a signed 64-bit integer, as the unsigned 64-bit integer that the writer takes (the
  magnitude of the least value, \<open>2^63\<close>, is its own two's complement).\<close>

definition absolute :: "64 word \<Rightarrow> 64 word" where
  "absolute v = (if v <s 0 then - v else v)"

text \<open>Modelled from the spec: the writer's \<^verbatim>\<open>write_8_bytes_big_endian\<close>, which is missing:
  most significant byte first.\<close>

definition write_8_bytes_big_endian :: "64 word \<Rightarrow> writer \<Rightarrow> writer" where
  "write_8_bytes_big_endian v sink =
     sink @ [ucast (drop_bit 56 v), ucast (drop_bit 48 v), ucast (drop_bit 40 v),
             ucast (drop_bit 32 v), ucast (drop_bit 24 v), ucast (drop_bit 16 v),
             ucast (drop_bit 8 v), ucast v]"

text \<open>\<^verbatim>\<open>ec_scalar::from_int64(int64_t value)\<close>. The local \<^verbatim>\<open>secret\<close> starts as
  \<^verbatim>\<open>null_hash\<close>, and the writer copies into the slab that spans its last
  \<^verbatim>\<open>sizeof(value)\<close> bytes; \<open>int64_secret\<close> is \<^verbatim>\<open>secret\<close> after the write.\<close>

definition int64_secret :: "64 word \<Rightarrow> ec_secret" where
  "int64_secret v =
     (let start = length null_hash - 8;
          written = write_8_bytes_big_endian (absolute v) []
      in take start null_hash @ copy_sink (drop start null_hash) written)"

definition from_int64 :: "ec_backend \<Rightarrow> 64 word \<Rightarrow> ec_scalar" where
  "from_int64 B v =
     (if v = 0 then ec_scalar_default
      else
        let secret' = int64_secret v
        in if 0 <s v then ec_scalar secret' else scalar_negate B (ec_scalar secret'))"

text \<open>The value of a byte sequence read as a big-endian number. It is not part of the code:
  it states what \<^verbatim>\<open>from_int64\<close> writes.\<close>

definition big_endian_value :: "byte list \<Rightarrow> nat" where
  "big_endian_value bs = foldl (\<lambda>acc b. acc * 256 + unat b) 0 bs"

section \<open>Concrete inputs\<close>

text \<open>The header of the reference scenario (version 1, zero digests, timestamp 1231006505,
  bits 0x1d00ffff, nonce 2083236893).\<close>

definition reference_header :: header where
  "reference_header = header_fields 1 null_hash null_hash 1231006505 0x1d00ffff 2083236893"


text \<open>Stand-ins for the external primitives in evaluations: every digest is the zero digest
  and reads as the number zero, the smallest proof hash there is.\<close>

definition zero_hash_externals :: externals where
  "zero_hash_externals =
     \<lparr>compact_of = from_compact, sha256_hash = (\<lambda>d. null_hash),
      scrypt_hash = (\<lambda>d. null_hash), to_uint256 = (\<lambda>d. 0)\<rparr>"



text \<open>A chain state in which every hash conflicts with a checkpoint and version 2 is the
  minimum.\<close>

definition conflicting_state :: chain_state where
  "conflicting_state =
     \<lparr>is_checkpoint_conflict = (\<lambda>d. True), minimum_block_version = 2,
      median_time_past = 0, work_required = 0x1d00ffff\<rparr>"


text \<open>A decoder stand-in that yields the largest 256-bit target for every input.\<close>

definition all_ones_externals :: externals where
  "all_ones_externals =
     \<lparr>compact_of = (\<lambda>c. \<lparr>overflowed = False, big = - 1\<rparr>), sha256_hash = (\<lambda>d. null_hash),
      scrypt_hash = (\<lambda>d. null_hash), to_uint256 = (\<lambda>d. 0)\<rparr>"

text \<open>Test doubles for the curve backend. The first reports failure on every call. The
  second reports failure on every negation, and success on addition and multiplication, where
  it leaves the first operand as it is.\<close>

definition failing_backend :: ec_backend where
  "failing_backend =
     \<lparr>ec_add = (\<lambda>a b. (False, a)), ec_negate = (\<lambda>a. (False, a)),
      ec_multiply = (\<lambda>a b. (False, a))\<rparr>"

definition no_negate_backend :: ec_backend where
  "no_negate_backend =
     \<lparr>ec_add = (\<lambda>a b. (True, a)), ec_negate = (\<lambda>a. (False, a)),
      ec_multiply = (\<lambda>a b. (True, a))\<rparr>"

text \<open>A third double, on which negation succeeds: it complements every byte.\<close>

definition complement_backend :: ec_backend where
  "complement_backend =
     \<lparr>ec_add = (\<lambda>a b. (True, a)), ec_negate = (\<lambda>a. (True, map (\<lambda>x. NOT x) a)),
      ec_multiply = (\<lambda>a b. (True, a))\<rparr>"

section \<open>Equality of headers\<close>

text \<open>C10. Two headers are equal under \<^verbatim>\<open>operator==\<close> exactly when their six wire fields
  are pairwise equal. The valid flag takes no part: changing it on either side does not change
  the comparison, and the default-constructed header (valid flag false) is equal to the header
  constructed from explicit all-zero field values (valid flag true).\<close>

theorem header_eq_six_fields:
  "(header_eq h1 h2 \<longleftrightarrow>
      (version h1, previous_block_hash h1, merkle_root h1, timestamp h1, bits h1, nonce h1)
      = (version h2, previous_block_hash h2, merkle_root h2, timestamp h2, bits h2, nonce h2))
   \<and> header_eq (h1\<lparr>valid := b1\<rparr>) (h2\<lparr>valid := b2\<rparr>) = header_eq h1 h2
   \<and> header_neq h1 h2 = (\<not> header_eq h1 h2)
   \<and> \<not> is_valid header_default
   \<and> is_valid (header_fields 0 null_hash null_hash 0 0 0)
   \<and> header_eq header_default (header_fields 0 null_hash null_hash 0 0 0)"
  by (auto simp: header_eq_def header_neq_def header_default_def header_fields_def is_valid_def)

section \<open>Contextual validation\<close>

text \<open>C3. \<^verbatim>\<open>accept\<close> returns the first applicable code in the fixed order: checkpoints_failed
  exactly when the header's hash conflicts with a checkpoint; invalid_block_version exactly
  when there is no conflict and the version is (unsigned) below the minimum block version;
  timestamp_too_early exactly when neither holds and the timestamp is not strictly above the
  median time past; incorrect_proof_of_work exactly when none of these holds and bits differs
  from the required work; success exactly when no condition holds. In particular a state with
  both a checkpoint conflict and a too-low version yields checkpoints_failed. The chain state
  is an argument that is only queried: \<^verbatim>\<open>accept\<close> returns a code and no state.\<close>

theorem accept_first_failure:
  "(accept E h state = checkpoints_failed \<longleftrightarrow> is_checkpoint_conflict state (hash E h))
   \<and> (accept E h state = invalid_block_version \<longleftrightarrow>
        \<not> is_checkpoint_conflict state (hash E h)
        \<and> unat (version h) < unat (minimum_block_version state))
   \<and> (accept E h state = timestamp_too_early \<longleftrightarrow>
        \<not> is_checkpoint_conflict state (hash E h)
        \<and> \<not> unat (version h) < unat (minimum_block_version state)
        \<and> \<not> unat (median_time_past state) < unat (timestamp h))
   \<and> (accept E h state = incorrect_proof_of_work \<longleftrightarrow>
        \<not> is_checkpoint_conflict state (hash E h)
        \<and> \<not> unat (version h) < unat (minimum_block_version state)
        \<and> unat (median_time_past state) < unat (timestamp h)
        \<and> bits h \<noteq> work_required state)
   \<and> (accept E h state = success \<longleftrightarrow>
        \<not> is_checkpoint_conflict state (hash E h)
        \<and> \<not> unat (version h) < unat (minimum_block_version state)
        \<and> unat (median_time_past state) < unat (timestamp h)
        \<and> bits h = work_required state)
   \<and> (is_checkpoint_conflict state (hash E h)
        \<and> unat (version h) < unat (minimum_block_version state)
        \<longrightarrow> accept E h state = checkpoints_failed)"
  by (simp add: accept_def word_less_nat_alt word_le_nat_alt not_less)

theorem accept_first_failure_witness:
  "is_checkpoint_conflict conflicting_state (hash zero_hash_externals reference_header)
   \<and> unat (version reference_header) < unat (minimum_block_version conflicting_state)
   \<and> accept zero_hash_externals reference_header conflicting_state = checkpoints_failed"
  using accept_first_failure [of zero_hash_externals reference_header conflicting_state]
  by (simp add: conflicting_state_def reference_header_def header_fields_def)

section \<open>Order of the intrinsic checks\<close>

lemma pow_keeps_two_hours:
  "two_hours (snd (is_invalid_proof_of_work E h l s st)) = two_hours st"
  by (simp add: is_invalid_proof_of_work_def Let_def)

lemma timestamp_result_two_hours:
  "two_hours st1 = two_hours st2 \<Longrightarrow>
   fst (is_invalid_timestamp c h l st1) = fst (is_invalid_timestamp c h l st2)"
  by (simp add: is_invalid_timestamp_def Let_def)

text \<open>\<^verbatim>\<open>check\<close> runs the proof-of-work check first, and that call does not change what the
  timestamp check returns.\<close>

lemma check_sequence:
  "fst (check E clock h timestamp_limit work_limit scrypt st) =
     (if fst (is_invalid_proof_of_work E h work_limit scrypt st) then invalid_proof_of_work
      else if fst (is_invalid_timestamp clock h timestamp_limit st) then futuristic_timestamp
      else success)"
proof -
  obtain bad_work st1
    where w: "is_invalid_proof_of_work E h work_limit scrypt st = (bad_work, st1)"
    by (cases "is_invalid_proof_of_work E h work_limit scrypt st")
  obtain bad_time st2 where t: "is_invalid_timestamp clock h timestamp_limit st1 = (bad_time, st2)"
    by (cases "is_invalid_timestamp clock h timestamp_limit st1")
  have "two_hours st1 = two_hours st"
    using pow_keeps_two_hours [of E h work_limit scrypt st] w by simp
  then have "fst (is_invalid_timestamp clock h timestamp_limit st) = bad_time"
    using timestamp_result_two_hours [of st1 st clock h timestamp_limit] t by simp
  then show ?thesis
    using w t by (simp add: check_def)
qed

lemma from_compact_zero: "from_compact 0 = \<lparr>overflowed = False, big = 0\<rparr>"
  by (simp add: from_compact_def)

section \<open>Wire encoding\<close>

lemma from_little_endian_write:
  "from_little_endian [ucast v, ucast (drop_bit 8 v), ucast (drop_bit 16 v), ucast (drop_bit 24 v)]
     = (v :: 32 word)"
proof (rule bit_word_eqI)
  fix n :: nat
  assume "n < LENGTH(32)"
  then have "n < 8 \<or> (8 \<le> n \<and> n < 16) \<or> (16 \<le> n \<and> n < 24) \<or> (24 \<le> n \<and> n < 32)"
    by simp arith
  then show "bit (from_little_endian
          [ucast v, ucast (drop_bit 8 v), ucast (drop_bit 16 v), ucast (drop_bit 24 v)]) n
        = bit v n"
    unfolding from_little_endian_def
    by (auto simp: bit_simps)
qed

lemma write_from_little_endian4:
  "write_4_bytes_little_endian (from_little_endian [a, b, c, d]) [] = [a, b, c, d]"
proof -
  let ?w = "from_little_endian [a, b, c, d]"
  have a: "ucast ?w = a"
    unfolding from_little_endian_def
    by (rule bit_word_eqI) (auto simp: bit_simps dest: bit_imp_le_length)
  have b: "ucast (drop_bit 8 ?w) = b"
    unfolding from_little_endian_def
    by (rule bit_word_eqI) (auto simp: bit_simps dest: bit_imp_le_length)
  have c: "ucast (drop_bit 16 ?w) = c"
    unfolding from_little_endian_def
    by (rule bit_word_eqI) (auto simp: bit_simps dest: bit_imp_le_length)
  have d: "ucast (drop_bit 24 ?w) = d"
    unfolding from_little_endian_def
    by (rule bit_word_eqI) (auto simp: bit_simps dest: bit_imp_le_length)
  show ?thesis
    by (simp add: write_4_bytes_little_endian_def a b c d)
qed

lemma write_from_little_endian:
  assumes "length bs = 4"
  shows "write_4_bytes_little_endian (from_little_endian bs) [] = bs"
proof -
  from assms obtain a b c d where "bs = [a, b, c, d]"
    by (auto simp: length_Suc_conv numeral_eq_Suc)
  then show ?thesis by (simp only: write_from_little_endian4)
qed

lemma length_write_4: "length (write_4_bytes_little_endian v []) = 4"
  by (simp add: write_4_bytes_little_endian_def)

lemma read_bytes_append:
  "length xs = n \<Longrightarrow>
   read_bytes n \<lparr>source_bytes = xs @ ys, source_ok = ok\<rparr>
     = (xs, \<lparr>source_bytes = ys, source_ok = ok\<rparr>)"
  by (simp add: read_bytes_def)

lemma read_4_append:
  "length xs = 4 \<Longrightarrow>
   read_4_bytes_little_endian \<lparr>source_bytes = xs @ ys, source_ok = ok\<rparr>
     = (from_little_endian xs, \<lparr>source_bytes = ys, source_ok = ok\<rparr>)"
  by (simp add: read_4_bytes_little_endian_def read_bytes_append)

lemma read_4_write_4:
  "read_4_bytes_little_endian
     \<lparr>source_bytes = write_4_bytes_little_endian v [] @ ys, source_ok = ok\<rparr>
   = (v, \<lparr>source_bytes = ys, source_ok = ok\<rparr>)"
  by (simp add: read_4_append length_write_4)
    (simp add: write_4_bytes_little_endian_def from_little_endian_write)

lemma read_hash_append:
  "length d = hash_size \<Longrightarrow>
   read_hash \<lparr>source_bytes = d @ ys, source_ok = ok\<rparr> = (d, \<lparr>source_bytes = ys, source_ok = ok\<rparr>)"
  by (simp add: read_hash_def read_bytes_append)

lemma to_data_sink_layout:
  "to_data_sink h sink =
     sink @ write_4_bytes_little_endian (version h) [] @ previous_block_hash h @ merkle_root h
       @ write_4_bytes_little_endian (timestamp h) [] @ write_4_bytes_little_endian (bits h) []
       @ write_4_bytes_little_endian (nonce h) []"
  by (simp add: to_data_sink_def write_4_bytes_little_endian_def write_bytes_def)

lemma length_to_data_sink:
  "wf_header h \<Longrightarrow> length (to_data_sink h []) = serialized_size"
  by (simp add: to_data_sink_layout wf_header_def serialized_size_def length_write_4)

lemma to_data_filled_sink:
  "wf_header h \<Longrightarrow> to_data_filled fill h = to_data_sink h []"
  by (simp add: to_data_filled_def copy_sink_def length_to_data_sink)

lemma to_data_sink_wf: "wf_header h \<Longrightarrow> to_data h = to_data_sink h []"
  by (simp add: to_data_def to_data_filled_sink)

lemma from_data_to_data_sink:
  assumes "wf_header h"
  shows "from_data \<lparr>source_bytes = to_data_sink h [] @ rest, source_ok = ok\<rparr>
           = (h\<lparr>valid := ok\<rparr>, \<lparr>source_bytes = rest, source_ok = ok\<rparr>)"
  using assms
  by (simp add: from_data_def to_data_sink_layout read_4_write_4 read_hash_append wf_header_def)

lemma header_of_data_to_data:
  "wf_header h \<Longrightarrow> header_of_data (to_data h) = h\<lparr>valid := True\<rparr>"
  using from_data_to_data_sink [of h "[]" True]
  by (simp add: header_of_data_def reader_of_def to_data_sink_wf)

text \<open>C5. For every header \<open>h\<close> (its two digests being 32-byte arrays), \<^verbatim>\<open>to_data\<close> produces
  exactly 80 bytes, whatever the unfilled chunk held before: the version (4 bytes
  little-endian), the previous block hash (32 raw bytes), the merkle root (32 raw bytes), then
  timestamp, bits and nonce (4 bytes little-endian each). Decoding those bytes yields a header
  equal to \<open>h\<close> under \<^verbatim>\<open>operator==\<close>: it is \<open>h\<close> with the valid flag set.\<close>

theorem to_data_round_trip:
  assumes "wf_header h"
  shows "length (to_data h) = 80
    \<and> serialized_size = 80
    \<and> to_data_filled fill h = to_data h
    \<and> to_data h =
        [ucast (version h), ucast (drop_bit 8 (version h)),
         ucast (drop_bit 16 (version h)), ucast (drop_bit 24 (version h))]
        @ previous_block_hash h
        @ merkle_root h
        @ [ucast (timestamp h), ucast (drop_bit 8 (timestamp h)),
           ucast (drop_bit 16 (timestamp h)), ucast (drop_bit 24 (timestamp h))]
        @ [ucast (bits h), ucast (drop_bit 8 (bits h)),
           ucast (drop_bit 16 (bits h)), ucast (drop_bit 24 (bits h))]
        @ [ucast (nonce h), ucast (drop_bit 8 (nonce h)),
           ucast (drop_bit 16 (nonce h)), ucast (drop_bit 24 (nonce h))]
    \<and> length (previous_block_hash h) = 32 \<and> length (merkle_root h) = 32
    \<and> header_of_data (to_data h) = h\<lparr>valid := True\<rparr>
    \<and> header_eq (header_of_data (to_data h)) h"
proof -
  have size: "serialized_size = 80"
    by (simp add: serialized_size_def hash_size_def)
  have len: "length (to_data h) = 80"
    using assms length_to_data_sink [of h] by (simp add: to_data_sink_wf size)
  have fill: "to_data_filled fill h = to_data h"
    using assms by (simp add: to_data_filled_sink to_data_sink_wf)
  have layout: "to_data h =
        [ucast (version h), ucast (drop_bit 8 (version h)),
         ucast (drop_bit 16 (version h)), ucast (drop_bit 24 (version h))]
        @ previous_block_hash h
        @ merkle_root h
        @ [ucast (timestamp h), ucast (drop_bit 8 (timestamp h)),
           ucast (drop_bit 16 (timestamp h)), ucast (drop_bit 24 (timestamp h))]
        @ [ucast (bits h), ucast (drop_bit 8 (bits h)),
           ucast (drop_bit 16 (bits h)), ucast (drop_bit 24 (bits h))]
        @ [ucast (nonce h), ucast (drop_bit 8 (nonce h)),
           ucast (drop_bit 16 (nonce h)), ucast (drop_bit 24 (nonce h))]"
    using assms
    by (simp add: to_data_sink_wf to_data_sink_layout write_4_bytes_little_endian_def)
  have digests: "length (previous_block_hash h) = 32 \<and> length (merkle_root h) = 32"
    using assms by (simp add: wf_header_def hash_size_def)
  have trip: "header_of_data (to_data h) = h\<lparr>valid := True\<rparr>"
    using assms by (rule header_of_data_to_data)
  have eq: "header_eq (header_of_data (to_data h)) h"
    by (simp add: trip header_eq_def)
  from len size fill layout digests trip eq show ?thesis
    by (intro conjI) simp_all
qed

lemma wf_reference_header: "wf_header reference_header"
  by (simp add: wf_header_def reference_header_def header_fields_def null_hash_def)

theorem to_data_round_trip_witness:
  "wf_header reference_header
   \<and> length (to_data reference_header) = 80
   \<and> take 4 (to_data reference_header) = [1, 0, 0, 0]
   \<and> drop 68 (to_data reference_header)
        = [0x29, 0xAB, 0x5F, 0x49, 0xFF, 0xFF, 0x00, 0x1D, 0x1D, 0xAC, 0x2B, 0x7C]
   \<and> header_eq (header_of_data (to_data reference_header)) reference_header"
proof -
  note trip = to_data_round_trip [OF wf_reference_header, of 0]
  have len: "length (to_data reference_header) = 80"
    using trip by (elim conjE)
  have bytes: "to_data reference_header =
      [1, 0, 0, 0] @ null_hash @ null_hash
      @ [0x29, 0xAB, 0x5F, 0x49, 0xFF, 0xFF, 0x00, 0x1D, 0x1D, 0xAC, 0x2B, 0x7C]"
    using trip by (simp add: reference_header_def header_fields_def)
  have eq: "header_eq (header_of_data (to_data reference_header)) reference_header"
    using trip by (elim conjE)
  have "take 4 (to_data reference_header) = [1, 0, 0, 0]"
    by (simp add: bytes)
  moreover have "drop 68 (to_data reference_header)
        = [0x29, 0xAB, 0x5F, 0x49, 0xFF, 0xFF, 0x00, 0x1D, 0x1D, 0xAC, 0x2B, 0x7C]"
    by (simp add: bytes null_hash_def hash_size_def)
  ultimately show ?thesis
    using wf_reference_header len eq by simp
qed

section \<open>Decoding any byte sequence\<close>

lemma read_bytes_padded:
  "n + k \<le> m \<Longrightarrow>
   read_bytes n \<lparr>source_bytes = drop k xs, source_ok = ok\<rparr>
     = (take n (drop k (xs @ replicate m 0)),
        \<lparr>source_bytes = drop (k + n) xs, source_ok = ok\<rparr>)"
  by (auto simp: read_bytes_def min_def add.commute)

lemma read_4_padded:
  "4 + k \<le> m \<Longrightarrow>
   read_4_bytes_little_endian \<lparr>source_bytes = drop k xs, source_ok = ok\<rparr>
     = (from_little_endian (take 4 (drop k (xs @ replicate m 0))),
        \<lparr>source_bytes = drop (k + 4) xs, source_ok = ok\<rparr>)"
  by (simp add: read_4_bytes_little_endian_def read_bytes_padded)

lemma read_hash_padded:
  "32 + k \<le> m \<Longrightarrow>
   read_hash \<lparr>source_bytes = drop k xs, source_ok = ok\<rparr>
     = (take 32 (drop k (xs @ replicate m 0)),
        \<lparr>source_bytes = drop (k + 32) xs, source_ok = ok\<rparr>)"
  using read_bytes_padded [of 32 k m xs ok] by (simp add: read_hash_def hash_size_def)

lemma read_4_start:
  "4 \<le> m \<Longrightarrow>
   read_4_bytes_little_endian \<lparr>source_bytes = xs, source_ok = ok\<rparr>
     = (from_little_endian (take 4 (xs @ replicate m 0)),
        \<lparr>source_bytes = drop 4 xs, source_ok = ok\<rparr>)"
  using read_4_padded [of 0 m xs ok] by simp

lemma take_drop_padded:
  "n + k \<le> m \<Longrightarrow>
   take n (drop k xs @ replicate m (0 :: byte)) = take n (drop k (xs @ replicate m 0))"
  by (auto simp: min_def)

lemma from_data_keeps_state: "source_ok (snd (from_data r)) = source_ok r"
  by (simp add: from_data_def read_4_bytes_little_endian_def read_hash_def read_bytes_def
      split: prod.splits)

lemma from_little_endian_zeros: "from_little_endian (replicate n 0) = 0"
  by (induction n) (simp_all add: from_little_endian_def)

lemma header_of_data_fields:
  "header_of_data data =
     \<lparr>version = from_little_endian (take 4 (data @ replicate 80 0)),
      previous_block_hash = take 32 (drop 4 (data @ replicate 80 0)),
      merkle_root = take 32 (drop 36 (data @ replicate 80 0)),
      timestamp = from_little_endian (take 4 (drop 68 (data @ replicate 80 0))),
      bits = from_little_endian (take 4 (drop 72 (data @ replicate 80 0))),
      nonce = from_little_endian (take 4 (drop 76 (data @ replicate 80 0))),
      valid = True\<rparr>"
  unfolding header_of_data_def from_data_def reader_of_def
  by (simp add: read_4_start [where m = 80] read_4_padded [where m = 80]
      read_hash_padded [where m = 80] take_drop_padded del: take_append drop_append)

lemma split_80:
  assumes "80 \<le> length p"
  shows "take 4 p @ take 32 (drop 4 p) @ take 32 (drop 36 p) @ take 4 (drop 68 p)
           @ take 4 (drop 72 p) @ take 4 (drop 76 p) = take 80 p"
proof -
  have "take 80 p = take (4 + (32 + (32 + (4 + (4 + 4))))) p" by simp
  also have "\<dots> = take 4 p @ take 32 (drop 4 p) @ take 32 (drop 36 p) @ take 4 (drop 68 p)
           @ take 4 (drop 72 p) @ take 4 (drop 76 p)"
    unfolding take_add by simp
  finally show ?thesis by simp
qed

lemma to_data_header_of_data:
  "to_data (header_of_data data) = take 80 (data @ replicate 80 0)"
proof -
  let ?p = "data @ replicate 80 0"
  have wf: "wf_header (header_of_data data)"
    by (simp add: header_of_data_fields wf_header_def hash_size_def del: take_append drop_append)
  have w: "\<And>k. k + 4 \<le> 80 \<Longrightarrow>
      write_4_bytes_little_endian (from_little_endian (take 4 (drop k ?p))) [] = take 4 (drop k ?p)"
    by (rule write_from_little_endian) simp
  have "to_data (header_of_data data) =
      take 4 ?p @ take 32 (drop 4 ?p) @ take 32 (drop 36 ?p) @ take 4 (drop 68 ?p)
           @ take 4 (drop 72 ?p) @ take 4 (drop 76 ?p)"
    using w [of 0] w [of 68] w [of 72] w [of 76]
    by (simp add: to_data_sink_wf [OF wf] to_data_sink_layout) (simp add: header_of_data_fields)
  also have "\<dots> = take 80 ?p"
    by (rule split_80) simp
  finally show ?thesis .
qed

text \<open>C7. Decoding is total: every byte sequence, also one shorter than 80 bytes, yields a
  header with two 32-byte digests, and what the input does not hold reads as zero, so that
  encoding the decoded header gives back the input cut or zero-padded to 80 bytes. The valid
  flag is what the reader converts to after the six reads; no read changes it, so the header
  decoded from a byte sequence is valid whatever its length and its field values are, and the
  reader shows no failure either. Decoding the empty sequence gives the all-zero header with
  the valid flag true.\<close>

theorem header_of_data_valid:
  "is_valid (header_of_data data)
   \<and> source_ok (snd (from_data (reader_of data)))
   \<and> is_valid (fst (from_data r)) = source_ok (snd (from_data r))
   \<and> source_ok (snd (from_data r)) = source_ok r
   \<and> wf_header (header_of_data data)
   \<and> to_data (header_of_data data) = take serialized_size (data @ replicate serialized_size 0)
   \<and> header_of_data [] = header_default\<lparr>valid := True\<rparr>
   \<and> header_eq (header_of_data []) header_default"
proof -
  have size: "serialized_size = 80"
    by (simp add: serialized_size_def hash_size_def)
  have empty: "header_of_data [] = header_default\<lparr>valid := True\<rparr>"
    unfolding header_of_data_fields
    using from_little_endian_zeros [of 4]
    by (simp add: header_default_def null_hash_def hash_size_def)
  have eq: "header_eq (header_of_data []) header_default"
    by (simp add: empty header_eq_def)
  have flag: "is_valid (fst (from_data r)) = source_ok (snd (from_data r))"
    by (simp add: from_data_def is_valid_def split: prod.splits)
  have fresh_ok: "source_ok (snd (from_data (reader_of data)))"
    by (simp add: from_data_keeps_state reader_of_def)
  have v: "is_valid (header_of_data data)"
    by (simp add: header_of_data_fields is_valid_def)
  have wf: "wf_header (header_of_data data)"
    by (simp add: header_of_data_fields wf_header_def hash_size_def del: take_append drop_append)
  show ?thesis
    using empty eq flag fresh_ok v wf
    by (simp add: size to_data_header_of_data from_data_keeps_state)
qed

section \<open>The header hash\<close>

text \<open>C6. For every header \<open>h\<close> (its two digests being 32-byte arrays), \<^verbatim>\<open>hash\<close> is SHA-256
  applied twice to the 80-byte encoding \<^verbatim>\<open>to_data\<close> produces. It is therefore a function of
  the encoding: two headers with the same encoding have the same hash.\<close>

theorem hash_of_encoding:
  assumes "wf_header h1" and "wf_header h2"
  shows "hash E h1 = sha256_hash E (sha256_hash E (to_data h1))
    \<and> length (to_data h1) = 80
    \<and> (to_data h1 = to_data h2 \<longrightarrow> hash E h1 = hash E h2)"
proof -
  have h1: "hash E h1 = sha256_hash E (sha256_hash E (to_data h1))"
    using assms(1) by (simp add: hash_def to_data_sink_wf)
  have h2: "hash E h2 = sha256_hash E (sha256_hash E (to_data h2))"
    using assms(2) by (simp add: hash_def to_data_sink_wf)
  have "length (to_data h1) = 80"
    using assms(1) length_to_data_sink [of h1]
    by (simp add: to_data_sink_wf serialized_size_def hash_size_def)
  with h1 h2 show ?thesis by simp
qed

lemma wf_header_default: "wf_header header_default"
  by (simp add: wf_header_def header_default_def null_hash_def)

lemma wf_header_fields_zero: "wf_header (header_fields 0 null_hash null_hash 0 0 0)"
  by (simp add: wf_header_def header_fields_def null_hash_def)

lemma to_data_zero_headers:
  "to_data header_default = to_data (header_fields 0 null_hash null_hash 0 0 0)"
  by (simp add: to_data_sink_wf wf_header_default wf_header_fields_zero to_data_sink_layout)
    (simp add: header_default_def header_fields_def)

theorem hash_of_encoding_witness:
  "wf_header header_default
   \<and> wf_header (header_fields 0 null_hash null_hash 0 0 0)
   \<and> to_data header_default = to_data (header_fields 0 null_hash null_hash 0 0 0)
   \<and> hash zero_hash_externals header_default
       = hash zero_hash_externals (header_fields 0 null_hash null_hash 0 0 0)"
  using hash_of_encoding [OF wf_header_default wf_header_fields_zero, of zero_hash_externals]
    to_data_zero_headers wf_header_default wf_header_fields_zero
  by blast

section \<open>Difficulty\<close>

lemma unat_complement: "unat (NOT t :: 'a::len word) = 2 ^ LENGTH('a) - 1 - unat t"
proof -
  have "NOT t = - 1 - t"
    by (simp add: not_eq_complement)
  moreover have "unat (- 1 - t) = unat (- 1 :: 'a word) - unat t"
    by (rule unat_sub) simp
  ultimately show ?thesis
    by (simp add: unsigned_minus_1_eq_mask mask_eq_exp_minus_1)
qed

lemma unat_add1: "t + 1 \<noteq> 0 \<Longrightarrow> unat (t + 1 :: 'a::len word) = unat t + 1"
  by (simp add: add.commute unatSuc)

lemma difficulty_value:
  fixes t :: uint256_t
  assumes "t + 1 \<noteq> 0"
  shows "unat (NOT t div (t + 1) + 1) = (2 ^ 256 div (unat t + 1)) mod 2 ^ 256"
proof -
  let ?n = "unat t + 1"
  have n: "unat (t + 1) = ?n" using assms by (rule unat_add1)
  have lt: "unat t < 2 ^ 256" using unsigned_less [of t] by simp
  have c: "unat (NOT t) = 2 ^ 256 - ?n"
    by (simp add: unat_complement)
  have q: "unat (NOT t div (t + 1)) = (2 ^ 256 - ?n) div ?n"
    by (simp add: unat_div n c)
  have "2 ^ 256 div ?n = ((2 ^ 256 - ?n) + ?n) div ?n"
    using lt by simp
  also have "\<dots> = (2 ^ 256 - ?n) div ?n + 1"
    by (simp only: div_add_self2)
  finally have e: "2 ^ 256 div ?n = (2 ^ 256 - ?n) div ?n + 1" .
  have "unat (NOT t div (t + 1) + 1) = (unat (NOT t div (t + 1)) + 1) mod 2 ^ 256"
    by (simp add: unat_word_ariths)
  then show ?thesis
    by (simp only: q e)
qed

lemma difficulty_fits:
  fixes t :: uint256_t
  assumes "t \<noteq> 0"
  shows "2 ^ 256 div (unat t + 1) < (2 :: nat) ^ 256"
proof -
  have "0 < unat t" using assms by (simp add: unat_gt_0)
  then have "2 \<le> unat t + 1" by simp
  then have "(2 :: nat) ^ 256 div (unat t + 1) \<le> 2 ^ 256 div 2"
    by (rule div_le_mono2 [rotated]) simp
  then show ?thesis by simp
qed

text \<open>C2, as the code has it. \<^verbatim>\<open>difficulty\<close> never divides by zero. It returns 0 when the
  decoding of bits overflowed. Otherwise, with \<open>t\<close> the decoded target, it returns 0 when
  \<open>t + 1\<close> wraps to zero (\<open>t\<close> is the largest 256-bit value), and else
  \<open>1 + (NOT t div (t + 1))\<close> in wrapping 256-bit arithmetic. That number is
  \<open>floor (2^256 / (t + 1))\<close> reduced modulo \<open>2^256\<close>: it is \<open>floor (2^256 / (t + 1))\<close> for
  every \<open>t\<close> from 1 on, and 0 for \<open>t = 0\<close>, where the quotient \<open>2^256\<close> does not fit the
  return type.\<close>

theorem difficulty_cases:
  fixes E :: externals and c :: "32 word"
  defines "t \<equiv> big (compact_of E c)"
  shows "difficulty E c \<noteq> Inl division_by_zero
    \<and> (overflowed (compact_of E c) \<longrightarrow> difficulty E c = Inr 0)
    \<and> (\<not> overflowed (compact_of E c) \<and> t + 1 = 0 \<longrightarrow> difficulty E c = Inr 0)
    \<and> (\<not> overflowed (compact_of E c) \<and> t + 1 \<noteq> 0 \<longrightarrow>
          difficulty E c = Inr (1 + NOT t div (t + 1))
          \<and> unat (1 + NOT t div (t + 1)) = (2 ^ 256 div (unat t + 1)) mod 2 ^ 256)
    \<and> (\<not> overflowed (compact_of E c) \<and> t + 1 \<noteq> 0 \<and> t \<noteq> 0 \<longrightarrow>
          (\<exists>d. difficulty E c = Inr d \<and> unat d = 2 ^ 256 div (unat t + 1)))
    \<and> (\<not> overflowed (compact_of E c) \<and> t = 0 \<longrightarrow> difficulty E c = Inr 0)"
proof -
  have never: "difficulty E c \<noteq> Inl division_by_zero"
    by (simp add: difficulty_def uint256_divide_def Let_def)
  have over: "overflowed (compact_of E c) \<Longrightarrow> difficulty E c = Inr 0"
    by (simp add: difficulty_def)
  have top: "\<not> overflowed (compact_of E c) \<Longrightarrow> t + 1 = 0 \<Longrightarrow> difficulty E c = Inr 0"
    by (simp add: difficulty_def t_def)
  have run: "\<not> overflowed (compact_of E c) \<Longrightarrow> t + 1 \<noteq> 0 \<Longrightarrow>
      difficulty E c = Inr (1 + NOT t div (t + 1))"
    by (simp add: difficulty_def uint256_divide_def t_def Let_def)
  have val: "t + 1 \<noteq> 0 \<Longrightarrow>
      unat (1 + NOT t div (t + 1)) = (2 ^ 256 div (unat t + 1)) mod 2 ^ 256"
    using difficulty_value [of t] by (simp add: add.commute)
  have fit: "t + 1 \<noteq> 0 \<Longrightarrow> t \<noteq> 0 \<Longrightarrow>
      unat (1 + NOT t div (t + 1)) = 2 ^ 256 div (unat t + 1)"
    using val difficulty_fits [of t] by simp
  have zero: "\<not> overflowed (compact_of E c) \<Longrightarrow> t = 0 \<Longrightarrow> difficulty E c = Inr 0"
    using run by simp
  show ?thesis
    using never over top run val fit zero by blast
qed

text \<open>C2 as stated fails where bits decode to the target zero: the code returns 0,
  and \<open>floor (2^256 / (0 + 1))\<close> is \<open>2^256\<close>.\<close>

theorem difficulty_of_zero_target:
  "\<not> overflowed (compact_of zero_hash_externals 0)
   \<and> big (compact_of zero_hash_externals 0) + 1 \<noteq> 0
   \<and> difficulty zero_hash_externals 0 = Inr 0
   \<and> unat (0 :: uint256_t) \<noteq> 2 ^ 256 div (unat (big (compact_of zero_hash_externals 0)) + 1)"
  by (simp add: zero_hash_externals_def from_compact_zero difficulty_def uint256_divide_def)

lemma from_compact_sign: "from_compact 0x01800000 = \<lparr>overflowed = True, big = 0\<rparr>"
  by (simp add: from_compact_def)

lemma from_compact_reference:
  "from_compact 0x1d00ffff = \<lparr>overflowed = False, big = 0xffff * 2 ^ 208\<rparr>"
  by (simp add: from_compact_def)

theorem difficulty_cases_witness:
  "overflowed (compact_of zero_hash_externals 0x01800000)
   \<and> difficulty zero_hash_externals 0x01800000 = Inr 0
   \<and> \<not> overflowed (compact_of all_ones_externals 0)
   \<and> big (compact_of all_ones_externals 0) + 1 = 0
   \<and> difficulty all_ones_externals 0 = Inr 0
   \<and> \<not> overflowed (compact_of zero_hash_externals 0x1d00ffff)
   \<and> big (compact_of zero_hash_externals 0x1d00ffff) + 1 \<noteq> 0
   \<and> big (compact_of zero_hash_externals 0x1d00ffff) \<noteq> 0
   \<and> (\<exists>d. difficulty zero_hash_externals 0x1d00ffff = Inr d
          \<and> unat d = 2 ^ 256 div (unat (big (compact_of zero_hash_externals 0x1d00ffff)) + 1))"
proof -
  have a: "overflowed (compact_of zero_hash_externals 0x01800000)"
    by (simp add: zero_hash_externals_def from_compact_sign)
  have b: "\<not> overflowed (compact_of all_ones_externals 0)
      \<and> big (compact_of all_ones_externals 0) + 1 = 0"
    by (simp add: all_ones_externals_def)
  have c: "\<not> overflowed (compact_of zero_hash_externals 0x1d00ffff)
      \<and> big (compact_of zero_hash_externals 0x1d00ffff) + 1 \<noteq> 0
      \<and> big (compact_of zero_hash_externals 0x1d00ffff) \<noteq> 0"
    by (simp add: zero_hash_externals_def from_compact_reference)
  show ?thesis
    using a b c
      difficulty_cases [of zero_hash_externals "0x01800000"]
      difficulty_cases [of all_ones_externals 0]
      difficulty_cases [of zero_hash_externals "0x1d00ffff"]
    by blast
qed

section \<open>Signed 64-bit counts\<close>

lemma sint_cases: "sint (v :: 64 word) = uint v - (if bit (uint v) 63 then 2 ^ 64 else 0)"
proof -
  have "take_bit 64 (uint v) = uint v"
    using uint_lt2p [of v] by (simp add: take_bit_int_eq_self)
  then show ?thesis
    by (simp add: sint_uint signed_take_bit_eq_take_bit_minus)
qed

lemma sint_negative: "sint (v :: 64 word) < 0 \<Longrightarrow> sint v = uint v - 2 ^ 64"
  using sint_cases [of v] uint_nonnegative [of v] by (simp split: if_splits)

lemma sint_nonnegative: "\<not> sint (v :: 64 word) < 0 \<Longrightarrow> sint v = uint v"
  using sint_cases [of v] uint_lt2p [of v] by (simp split: if_splits)

lemma sint_small: "uint (v :: 64 word) < 2 ^ 63 \<Longrightarrow> sint v = uint v"
proof -
  assume "uint v < 2 ^ 63"
  then have "uint v div 2 ^ 63 = 0"
    by (simp add: div_pos_pos_trivial)
  then have "\<not> bit (uint v) 63"
    by (simp add: bit_iff_odd)
  then show ?thesis
    by (simp add: sint_cases)
qed

lemma sint_nanoseconds_ucast:
  fixes s :: "32 word"
  shows "sint (nanoseconds (ucast s)) = uint s * 1000000000"
proof -
  have lt: "uint s < 2 ^ 32" using uint_lt2p [of s] by simp
  have ge: "0 \<le> uint s" by simp
  have u: "uint (ucast s :: 64 word) = uint s"
    by (simp add: uint_up_ucast is_up)
  have "uint (nanoseconds (ucast s)) = (uint s * 1000000000) mod 2 ^ 64"
    by (simp add: nanoseconds_def uint_word_ariths u)
  also have "\<dots> = uint s * 1000000000"
    using lt ge by (intro mod_pos_pos_trivial) simp_all
  finally have v: "uint (nanoseconds (ucast s)) = uint s * 1000000000" .
  have "uint s * 1000000000 < 2 ^ 63" using lt by simp
  then show ?thesis
    using sint_small [of "nanoseconds (ucast s)"] v by simp
qed

lemma sint_add_in_range:
  fixes a b :: "64 word"
  assumes "- (2 ^ 63) \<le> sint a + sint b" and "sint a + sint b < 2 ^ 63"
  shows "sint (a + b) = sint a + sint b"
proof -
  have "sint (a + b) = signed_take_bit 63 (sint a + sint b)"
    by (simp add: sint_word_ariths)
  also have "\<dots> = sint a + sint b"
    using assms by (intro signed_take_bit_int_eq_self) simp_all
  finally show ?thesis .
qed

section \<open>Proof of work\<close>

text \<open>What a call returns, given the state of the process: the limit the target is compared
  with is the one decoded from the argument only while the static is not yet initialised.\<close>

lemma is_invalid_proof_of_work_result:
  "fst (is_invalid_proof_of_work E h work_limit scrypt st) \<longleftrightarrow>
     overflowed (compact_of E (bits h))
     \<or> big (compact_of E (bits h)) = 0
     \<or> (case pow_limit st of None \<Rightarrow> big (compact_of E work_limit) | Some l \<Rightarrow> l)
          < big (compact_of E (bits h))
     \<or> big (compact_of E (bits h))
          < to_uint256 E (if scrypt then scrypt_hash E (to_data h) else hash E h)"
  by (simp add: is_invalid_proof_of_work_def Let_def word_less_1)




section \<open>The intrinsic check\<close>

text \<open>What the first call of a process returns, while the clock's count does not wrap: the
  conditions are those of the arguments of the call.\<close>


lemma is_invalid_timestamp_first_call:
  assumes "sint (now clock) + uint timestamp_limit * 1000000000 < 2 ^ 63"
  shows "fst (is_invalid_timestamp clock h timestamp_limit fresh) \<longleftrightarrow>
     sint (now clock) + uint timestamp_limit * 1000000000 < uint (timestamp h) * 1000000000"
proof -
  have lo: "- (2 ^ 63) \<le> sint (now clock)"
    using sint_ge [of "now clock"] by simp
  have "sint (now clock + nanoseconds (ucast timestamp_limit))
      = sint (now clock) + sint (nanoseconds (ucast timestamp_limit))"
  proof (rule sint_add_in_range)
    show "- (2 ^ 63) \<le> sint (now clock) + sint (nanoseconds (ucast timestamp_limit))"
      using lo uint_nonnegative [of timestamp_limit]
      by (simp only: sint_nanoseconds_ucast)
    show "sint (now clock) + sint (nanoseconds (ucast timestamp_limit)) < 2 ^ 63"
      using assms by (simp add: sint_nanoseconds_ucast)
  qed
  then have "sint (now clock + nanoseconds (ucast timestamp_limit))
      = sint (now clock) + uint timestamp_limit * 1000000000"
    by (simp add: sint_nanoseconds_ucast)
  then show ?thesis
    by (simp add: is_invalid_timestamp_def fresh_def word_sless_alt sint_nanoseconds_ucast)
qed

lemma check_first_call:
  assumes "sint (now clock) + uint timestamp_limit * 1000000000 < 2 ^ 63"
  shows "fst (check E clock h timestamp_limit work_limit scrypt fresh) =
     (if overflowed (compact_of E (bits h))
         \<or> big (compact_of E (bits h)) = 0
         \<or> big (compact_of E work_limit) < big (compact_of E (bits h))
         \<or> big (compact_of E (bits h))
              < to_uint256 E (if scrypt then scrypt_hash E (to_data h) else hash E h)
      then invalid_proof_of_work
      else if sint (now clock) + uint timestamp_limit * 1000000000
                < uint (timestamp h) * 1000000000
      then futuristic_timestamp
      else success)"
  unfolding check_sequence is_invalid_proof_of_work_result
    is_invalid_timestamp_first_call [OF assms]
  by (simp add: fresh_def)


section \<open>Scalars from integers\<close>

lemma absolute_magnitude: "unat (absolute v) = nat \<bar>sint v\<bar>"
proof (cases "sint v < 0")
  case True
  then have s: "sint v = uint v - 2 ^ 64" by (rule sint_negative)
  have lt: "uint v < 2 ^ 64" using uint_lt2p [of v] by simp
  have pos: "0 < uint v"
    using True s sint_ge [of v] by simp
  have "uint (- v) = (- uint v) mod 2 ^ 64"
    by (simp add: uint_word_ariths)
  also have "\<dots> = 2 ^ 64 - uint v"
    using lt pos by (simp add: zmod_zminus1_eq_if)
  finally have "uint (- v) = \<bar>sint v\<bar>"
    using s lt by simp
  then have "unat (- v) = nat \<bar>sint v\<bar>"
    by (simp add: unat_eq_nat_uint)
  then show ?thesis
    using True by (simp add: absolute_def word_sless_alt)
next
  case False
  then have "sint v = uint v" by (rule sint_nonnegative)
  then have "nat \<bar>sint v\<bar> = nat (uint v)"
    by (simp only: abs_of_nonneg [OF uint_nonnegative])
  then have "unat v = nat \<bar>sint v\<bar>"
    by (simp only: unat_eq_nat_uint)
  then show ?thesis
    using False by (simp add: absolute_def word_sless_alt)
qed

lemma negative_of_positive:
  assumes "0 <s (n :: 64 word)"
  shows "- n <s 0"
proof -
  from assms have p: "0 < sint n" by (simp add: word_sless_alt)
  have "sint n < 2 ^ 63" using sint_lt [of n] by simp
  then have "signed_take_bit 63 (- sint n) = - sint n"
    using p by (intro signed_take_bit_int_eq_self) simp_all
  then have "sint (- n) = - sint n"
    by (simp add: sint_word_minus)
  then show ?thesis
    using p by (simp add: word_sless_alt)
qed

lemma big_endian_value_append:
  "big_endian_value (xs @ ys) = big_endian_value xs * 256 ^ length ys + big_endian_value ys"
proof (induction ys rule: rev_induct)
  case Nil
  then show ?case by (simp add: big_endian_value_def)
next
  case (snoc y ys)
  have "big_endian_value (xs @ ys @ [y]) = big_endian_value (xs @ ys) * 256 + unat y"
    by (simp add: big_endian_value_def)
  also have "\<dots> = big_endian_value xs * 256 ^ length (ys @ [y]) + big_endian_value (ys @ [y])"
    by (simp add: snoc.IH) (simp add: big_endian_value_def algebra_simps)
  finally show ?case by simp
qed

lemma big_endian_value_zeros: "big_endian_value (replicate n 0) = 0"
  by (induction n) (simp_all add: big_endian_value_def)

lemma unat_byte_of:
  fixes w :: "64 word"
  shows "unat (ucast (drop_bit k w) :: byte) = unat w div 2 ^ k mod 256"
proof -
  have "unat (ucast (drop_bit k w) :: byte) = take_bit 8 (unat (drop_bit k w))"
    by (simp add: unsigned_ucast_eq)
  also have "\<dots> = take_bit 8 (drop_bit k (unat w))"
    by (simp only: unat_drop_bit_eq)
  also have "\<dots> = unat w div 2 ^ k mod 256"
    by (simp add: take_bit_eq_mod drop_bit_eq_div)
  finally show ?thesis .
qed

lemma big_endian_value_write_8:
  fixes w :: "64 word"
  shows "big_endian_value (write_8_bytes_big_endian w []) = unat w"
proof -
  define n where "n = unat w"
  have lt: "n < 2 ^ 64"
    using unsigned_less [of w] by (simp add: n_def)
  have step: "n div 2 ^ (j + 8) * 256 + n div 2 ^ j mod 256 = n div 2 ^ j" for j
  proof -
    have "n div 2 ^ (j + 8) = n div 2 ^ j div 256"
      by (simp add: power_add div_mult2_eq)
    then show ?thesis by simp
  qed
  have top: "n div 2 ^ 56 mod 256 = n div 2 ^ 56"
    using lt by (simp add: less_mult_imp_div_less)
  have last: "unat (ucast w :: byte) = n mod 256"
    using unat_byte_of [of 0 w] by (simp add: n_def)
  have "big_endian_value (write_8_bytes_big_endian w []) =
      ((((((n div 2 ^ 56 mod 256 * 256 + n div 2 ^ 48 mod 256) * 256 + n div 2 ^ 40 mod 256) * 256
        + n div 2 ^ 32 mod 256) * 256 + n div 2 ^ 24 mod 256) * 256 + n div 2 ^ 16 mod 256) * 256
        + n div 2 ^ 8 mod 256) * 256 + n mod 256"
    by (simp add: big_endian_value_def write_8_bytes_big_endian_def unat_byte_of last
        flip: n_def)
  also have "\<dots> = n"
  proof -
    have s6: "n div 2 ^ 56 * 256 + n div 2 ^ 48 mod 256 = n div 2 ^ 48"
      using step [of 48] by simp
    have s5: "n div 2 ^ 48 * 256 + n div 2 ^ 40 mod 256 = n div 2 ^ 40"
      using step [of 40] by simp
    have s4: "n div 2 ^ 40 * 256 + n div 2 ^ 32 mod 256 = n div 2 ^ 32"
      using step [of 32] by simp
    have s3: "n div 2 ^ 32 * 256 + n div 2 ^ 24 mod 256 = n div 2 ^ 24"
      using step [of 24] by simp
    have s2: "n div 2 ^ 24 * 256 + n div 2 ^ 16 mod 256 = n div 2 ^ 16"
      using step [of 16] by simp
    have s1: "n div 2 ^ 16 * 256 + n div 2 ^ 8 mod 256 = n div 2 ^ 8"
      using step [of 8] by simp
    have s0: "n div 2 ^ 8 * 256 + n mod 256 = n"
      by simp
    show ?thesis
      by (simp only: top s6 s5 s4 s3 s2 s1 s0)
  qed
  finally show ?thesis by (simp add: n_def)
qed

lemma int64_secret_layout:
  "int64_secret v = replicate 24 0 @ write_8_bytes_big_endian (absolute v) []"
  by (simp add: int64_secret_def copy_sink_def null_hash_def hash_size_def
      write_8_bytes_big_endian_def)

text \<open>C8. For every signed 64-bit \<open>v\<close> and every backend: \<^verbatim>\<open>from_int64\<close> of zero is the
  all-zero scalar, whatever the backend would do, and converts to false. The buffer written
  for \<open>v\<close> has 32 bytes, its first 24 are zero and its last 8 are the big-endian digits of
  \<open>\<bar>v\<bar>\<close>. For positive \<open>v\<close> the result is that buffer, for negative \<open>v\<close> it is the negation
  (unary minus, through the backend) of that buffer. Hence, for every positive \<open>n\<close>,
  \<^verbatim>\<open>from_int64(-n)\<close> is the negation of \<^verbatim>\<open>from_int64(n)\<close>.\<close>

theorem from_int64_cases:
  "from_int64 B 0 = ec_scalar (replicate 32 0)
   \<and> \<not> to_bool (from_int64 B 0)
   \<and> length (int64_secret v) = 32
   \<and> take 24 (int64_secret v) = replicate 24 0
   \<and> length (drop 24 (int64_secret v)) = 8
   \<and> big_endian_value (drop 24 (int64_secret v)) = nat \<bar>sint v\<bar>
   \<and> big_endian_value (int64_secret v) = nat \<bar>sint v\<bar>
   \<and> (0 <s v \<longrightarrow> from_int64 B v = ec_scalar (int64_secret v))
   \<and> (v <s 0 \<longrightarrow> from_int64 B v = scalar_negate B (ec_scalar (int64_secret v)))
   \<and> (0 <s n \<longrightarrow> from_int64 B (- n) = scalar_negate B (from_int64 B n))"
proof -
  have zero: "from_int64 B 0 = ec_scalar (replicate 32 0)"
    by (simp add: from_int64_def ec_scalar_default_def null_hash_def hash_size_def)
  have false: "\<not> to_bool (from_int64 B 0)"
    by (simp add: zero to_bool_def scalar_eq_def null_hash_def hash_size_def)
  have len: "length (int64_secret v) = 32"
    by (simp add: int64_secret_layout write_8_bytes_big_endian_def)
  have head: "take 24 (int64_secret v) = replicate 24 0"
    by (simp add: int64_secret_layout)
  have tail: "drop 24 (int64_secret v) = write_8_bytes_big_endian (absolute v) []"
    by (simp add: int64_secret_layout)
  have digits: "big_endian_value (drop 24 (int64_secret v)) = nat \<bar>sint v\<bar>"
    by (simp only: tail big_endian_value_write_8 absolute_magnitude)
  have whole: "big_endian_value (int64_secret v) = nat \<bar>sint v\<bar>"
    using digits
    by (simp add: int64_secret_layout big_endian_value_append big_endian_value_zeros)
  have pos_v: "0 <s x \<Longrightarrow> from_int64 B x = ec_scalar (int64_secret x)" for x
    by (auto simp: from_int64_def)
  have neg_v: "x <s 0 \<Longrightarrow> from_int64 B x = scalar_negate B (ec_scalar (int64_secret x))" for x
    by (auto simp: from_int64_def word_sless_alt)
  have opp: "from_int64 B (- n) = scalar_negate B (from_int64 B n)" if n: "0 <s n"
  proof -
    have m: "- n <s 0" using n by (rule negative_of_positive)
    have "\<not> n <s 0" using n by (simp add: word_sless_alt)
    then have "absolute (- n) = absolute n"
      using m by (simp add: absolute_def)
    then have "int64_secret (- n) = int64_secret n"
      by (simp add: int64_secret_def)
    then show ?thesis
      using m n by (simp add: neg_v pos_v)
  qed
  show ?thesis
    using zero false len head digits whole pos_v [of v] neg_v [of v] opp
    by (simp add: tail write_8_bytes_big_endian_def)
qed

lemma int64_secret_five: "int64_secret 5 = replicate 31 0 @ [5]"
proof -
  have "write_8_bytes_big_endian (absolute 5) [] = [0, 0, 0, 0, 0, 0, 0, 5]"
    by (simp add: write_8_bytes_big_endian_def absolute_def word_sless_alt)
  moreover have "replicate 24 (0 :: byte) @ [0, 0, 0, 0, 0, 0, 0, 5] = replicate 31 0 @ [5]"
    by (simp add: numeral_eq_Suc)
  ultimately show ?thesis
    by (simp only: int64_secret_layout)
qed

theorem from_int64_cases_witness:
  "0 <s (5 :: 64 word)
   \<and> from_int64 complement_backend 5 = ec_scalar (replicate 31 0 @ [5])
   \<and> (- 5 :: 64 word) <s 0
   \<and> from_int64 complement_backend (- 5)
       = scalar_negate complement_backend (from_int64 complement_backend 5)
   \<and> from_int64 complement_backend (- 5) = ec_scalar (replicate 31 255 @ [250])"
proof -
  have p: "0 <s (5 :: 64 word)"
    by (simp add: word_sless_alt)
  have m: "(- 5 :: 64 word) <s 0"
    by (simp add: word_sless_alt)
  have five: "from_int64 complement_backend 5 = ec_scalar (replicate 31 0 @ [5])"
    using from_int64_cases [of complement_backend 5 5] p by (simp add: int64_secret_five)
  have opp: "from_int64 complement_backend (- 5)
      = scalar_negate complement_backend (from_int64 complement_backend 5)"
    using from_int64_cases [of complement_backend 5 5] p by simp
  have "scalar_negate complement_backend (ec_scalar (replicate 31 0 @ [5]))
      = ec_scalar (replicate 31 255 @ [250])"
    by (simp add: scalar_negate_def complement_backend_def)
  then show ?thesis
    using p m five opp by simp
qed

section \<open>Backend failures\<close>

text \<open>C9, as the code has it. No scalar operation raises: each returns a scalar, and the
  backend's success flag is the only failure there is. Addition, negation and multiplication
  return the all-zero scalar when the backend call they make reports failure. Subtraction is
  the addition of the negated right operand: it returns the all-zero scalar when its addition
  reports failure; when its negation reports failure, the negated operand is the all-zero
  scalar and subtraction returns what adding the all-zero scalar to the left operand
  returns.\<close>

theorem backend_failure_collapses:
  "(\<not> fst (ec_add B (secret a) (secret b)) \<longrightarrow> scalar_add B a b = ec_scalar (replicate 32 0))
   \<and> (\<not> fst (ec_negate B (secret a)) \<longrightarrow> scalar_negate B a = ec_scalar (replicate 32 0))
   \<and> (\<not> fst (ec_multiply B (secret a) (secret b)) \<longrightarrow>
         scalar_multiply B a b = ec_scalar (replicate 32 0))
   \<and> scalar_subtract B a b = scalar_add B a (scalar_negate B b)
   \<and> (\<not> fst (ec_add B (secret a) (secret (scalar_negate B b))) \<longrightarrow>
         scalar_subtract B a b = ec_scalar (replicate 32 0))
   \<and> (\<not> fst (ec_negate B (secret b)) \<longrightarrow>
         scalar_subtract B a b = scalar_add B a (ec_scalar (replicate 32 0)))
   \<and> (fst (ec_add B (secret a) (secret b)) \<longrightarrow>
         scalar_add B a b = ec_scalar (snd (ec_add B (secret a) (secret b))))
   \<and> (fst (ec_negate B (secret a)) \<longrightarrow> scalar_negate B a = ec_scalar (snd (ec_negate B (secret a))))
   \<and> (fst (ec_multiply B (secret a) (secret b)) \<longrightarrow>
         scalar_multiply B a b = ec_scalar (snd (ec_multiply B (secret a) (secret b))))"
  by (simp add: scalar_add_def scalar_negate_def scalar_multiply_def scalar_subtract_def
      ec_scalar_default_def null_hash_def hash_size_def split: prod.splits)

theorem backend_failure_collapses_witness:
  "\<not> fst (ec_add failing_backend (secret (ec_scalar (replicate 31 0 @ [7])))
         (secret (ec_scalar (replicate 31 0 @ [5]))))
   \<and> scalar_add failing_backend (ec_scalar (replicate 31 0 @ [7]))
        (ec_scalar (replicate 31 0 @ [5])) = ec_scalar (replicate 32 0)
   \<and> scalar_negate failing_backend (ec_scalar (replicate 31 0 @ [7])) = ec_scalar (replicate 32 0)
   \<and> scalar_multiply failing_backend (ec_scalar (replicate 31 0 @ [7]))
        (ec_scalar (replicate 31 0 @ [5])) = ec_scalar (replicate 32 0)
   \<and> scalar_subtract failing_backend (ec_scalar (replicate 31 0 @ [7]))
        (ec_scalar (replicate 31 0 @ [5])) = ec_scalar (replicate 32 0)"
proof -
  have fa: "\<not> fst (ec_add failing_backend x y)" for x y
    by (simp add: failing_backend_def)
  have fn: "\<not> fst (ec_negate failing_backend x)" for x
    by (simp add: failing_backend_def)
  have fm: "\<not> fst (ec_multiply failing_backend x y)" for x y
    by (simp add: failing_backend_def)
  show ?thesis
    using fa fn fm
      backend_failure_collapses [of failing_backend "ec_scalar (replicate 31 0 @ [7])"
        "ec_scalar (replicate 31 0 @ [5])"]
    by blast
qed

text \<open>C9 as stated fails for subtraction: on a backend whose negation reports failure
  and whose addition succeeds, 7 minus 5 is not the all-zero scalar.\<close>

theorem subtract_after_failed_negate:
  "\<not> fst (ec_negate no_negate_backend (secret (ec_scalar (replicate 31 0 @ [5]))))
   \<and> scalar_subtract no_negate_backend (ec_scalar (replicate 31 0 @ [7]))
        (ec_scalar (replicate 31 0 @ [5])) = ec_scalar (replicate 31 0 @ [7])
   \<and> ec_scalar (replicate 31 0 @ [7 :: byte]) \<noteq> ec_scalar (replicate 32 0)"
proof -
  have "replicate 31 0 @ [7 :: byte] \<noteq> replicate 32 0"
  proof
    assume "replicate 31 0 @ [7 :: byte] = replicate 32 0"
    then have "last (replicate 31 0 @ [7 :: byte]) = last (replicate 32 0)"
      by (rule arg_cong)
    then show False by simp
  qed
  then show ?thesis
    by (simp add: scalar_subtract_def scalar_add_def scalar_negate_def no_negate_backend_def)
qed

end
